theory Spec2Isabelle
  imports Main
begin

section \<open>Data model (rebranch.go)\<close>

text \<open>
  \<^verbatim>\<open>CommitInfo\<close> and \<^verbatim>\<open>RebranchState\<close> are the two structs of rebranch.go. Go strings
  are byte strings, so they are \<open>string\<close> here. \<^verbatim>\<open>CurrentCommitIdx\<close> is a Go \<^verbatim>\<open>int\<close>
  that the program only ever sets to \<open>0\<close>, to a loop index, or increments, so it is a
  natural number.
\<close>

record CommitInfo =
  SHA :: string
  Message :: string
  Action :: string

record RebranchState =
  SourceBranch :: string
  BaseBranch :: string
  TempBranch :: string
  CommitsToApply :: "CommitInfo list"
  CurrentCommitIdx :: nat
  Stage :: string

text \<open>A commit object of the repository, as go-git's \<^verbatim>\<open>object.Commit\<close> presents it.\<close>

record commit_obj =
  Hash :: string
  CommitMessage :: string
  ParentHashes :: "string list"

text \<open>What \<^verbatim>\<open>repo.Head()\<close> finds: nothing resolvable, a detached commit, or a branch.\<close>

datatype head_ref = NoHead | Detached | OnBranch string

text \<open>Every error return and panic of the program is a value of this type.\<close>

datatype error =
    InvalidRepository
  | AlreadyInProgress
  | ForeignOperation string
  | WorkingDirectoryNotClean
  | BaseBranchMissing string
  | HeadUnresolved
  | DetachedHead
  | StatusFailed
  | SameAsBase string
  | NoOperationInProgress
  | LoadStateFailed
  | NotWaitingForConflicts string
  | NotReadyToFinish string
  | NotOnTempBranch string string
  | BaseNotFound string
  | HeadNotFound string
  | BaseCommitFailed
  | HeadCommitFailed
  | CommitLogFailed
  | AncestryFailed
  | NoCommits
  | CreatePickFileFailed
  | EditorFailed
  | ReadPickFileFailed
  | InvalidLine nat string
  | InvalidAction string nat
  | UnknownCommit string nat
  | EmptySelection
  | CheckoutFailed string
  | CherryPickFailed string
  | DeleteBranchFailed string
  | RenameBranchFailed string string
  | DeleteOriginalFailed string
  | RenameTempFailed string string
  | WriteStateFailed
  | RemoveStateFailed
  | SaveAfterConflictFailed
  | ConflictDetected string
  | Panic

section \<open>The environment the program runs in\<close>

text \<open>
  The program acts on a git repository and on two files in its \<^verbatim>\<open>.git\<close> directory. The
  record below is that environment, passed explicitly and returned updated:
  \<^item> \<open>git_dir\<close>: the \<^verbatim>\<open>.git\<close> directory exists; \<open>HEAD\<close>: what HEAD resolves to;
  \<^item> \<open>branches\<close>: the branch references, name to tip commit; \<open>objects\<close>: the commit
    objects by hash;
  \<^item> \<open>Log\<close> and \<open>IsAncestor\<close>: the two go-git library calls \<^verbatim>\<open>Repository.Log\<close> (the
    commits its iterator yields from a starting hash, in order) and
    \<^verbatim>\<open>Commit.IsAncestor\<close>, taken as parameters since the library is not part of the
    program; \<open>None\<close> is an error return;
  \<^item> \<open>clean\<close>: whether the work tree has no uncommitted change (\<open>None\<close>: its status
    cannot be read); \<open>marker\<close>: the operation named by
    a \<^verbatim>\<open>REBASE_HEAD\<close>, \<^verbatim>\<open>MERGE_HEAD\<close>, \<^verbatim>\<open>CHERRY_PICK_HEAD\<close> or \<^verbatim>\<open>REVERT_HEAD\<close> file;
  \<^item> \<open>cherry_pick_ok\<close>: whether \<^verbatim>\<open>git cherry-pick\<close> of a commit succeeds on top of the
    commit that is checked out (\<open>None\<close>: no branch tip is checked out), so that the same
    commit may apply at one point of a run and fail at another; \<open>picked\<close>: the commit
    it creates on top of a tip;
  \<^item> \<open>state_file\<close> and \<open>pick_file\<close>: the contents of \<^verbatim>\<open>.git/REBRANCH_STATE\<close> (the
    record it decodes to) and \<^verbatim>\<open>.git/REBRANCH_PICK\<close>, \<open>None\<close> when the file is absent;
    \<open>fs_ok\<close>: writing and removing files succeeds;
  \<^item> \<open>editor\<close>: what the user's editor turns the pick file into (\<open>None\<close>: it exits
    with an error); \<open>now\<close>: the Unix time.
\<close>

record world =
  git_dir :: bool
  HEAD :: head_ref
  branches :: "string \<rightharpoonup> string"
  objects :: "string \<rightharpoonup> commit_obj"
  Log :: "string \<Rightarrow> commit_obj list option"
  IsAncestor :: "commit_obj \<Rightarrow> commit_obj \<Rightarrow> bool option"
  clean :: "bool option"
  marker :: "string option"
  cherry_pick_ok :: "string option \<Rightarrow> string \<Rightarrow> bool"
  picked :: "string \<Rightarrow> string \<Rightarrow> string"
  state_file :: "RebranchState option"
  pick_file :: "string option"
  fs_ok :: bool
  editor :: "string \<Rightarrow> string option"
  now :: nat

section \<open>Strings (the Go library functions the program calls)\<close>

text \<open>
  White space as \<^verbatim>\<open>strings.TrimSpace\<close> and \<^verbatim>\<open>strings.Fields\<close> see it in ASCII text: tab,
  line feed, vertical tab, form feed, carriage return and space. (In text that is not
  ASCII, Go also counts the Unicode spaces from U+0085 on; every statement below about
  the listing's first two fields takes identifiers without such bytes.)
\<close>

definition isSpace :: "char \<Rightarrow> bool" where
  "isSpace c = (c = CHR 0x09 \<or> c = CHR 0x0A \<or> c = CHR 0x0B \<or> c = CHR 0x0C
                \<or> c = CHR 0x0D \<or> c = CHR '' '')"

definition TrimSpace :: "string \<Rightarrow> string" where
  "TrimSpace s = rev (dropWhile isSpace (rev (dropWhile isSpace s)))"

definition HasPrefix :: "string \<Rightarrow> string \<Rightarrow> bool" where
  "HasPrefix s p = (take (length p) s = p)"

text \<open>\<^verbatim>\<open>strings.Fields\<close>: the maximal runs of characters that are not white space.\<close>

fun fields_from :: "string \<Rightarrow> string \<Rightarrow> string list" where
  "fields_from cur [] = (if cur = [] then [] else [rev cur])"
| "fields_from cur (c # cs) =
     (if isSpace c then (if cur = [] then fields_from [] cs else rev cur # fields_from [] cs)
      else fields_from (c # cur) cs)"

definition Fields :: "string \<Rightarrow> string list" where
  "Fields s = fields_from [] s"

text \<open>\<^verbatim>\<open>strings.Split(s, "\n")\<close> and \<^verbatim>\<open>strings.Join(lines, "\n")\<close>.\<close>

fun Split_lines :: "string \<Rightarrow> string list" where
  "Split_lines [] = [[]]"
| "Split_lines (c # cs) =
     (if c = CHR 0x0A then [] # Split_lines cs
      else (case Split_lines cs of [] \<Rightarrow> [[c]] | l # ls \<Rightarrow> (c # l) # ls))"

fun Join_lines :: "string list \<Rightarrow> string" where
  "Join_lines [] = []"
| "Join_lines [l] = l"
| "Join_lines (l # ls) = l @ [CHR 0x0A] @ Join_lines ls"

text \<open>\<^verbatim>\<open>fmt.Sprintf("%d", n)\<close> for a number that is not negative.\<close>

function itoa :: "nat \<Rightarrow> string" where
  "itoa n = (if n < 10 then [''0123456789'' ! n]
             else itoa (n div 10) @ [''0123456789'' ! (n mod 10)])"
  by pat_completeness auto
termination
  by (relation "measure id") auto

declare itoa.simps [simp del]

section \<open>The selection listing (editor.go)\<close>

definition shortSHA :: "string \<Rightarrow> string" where
  "shortSHA s = (if length s > 7 then take 7 s else s)"

definition pick_header :: "string list" where
  "pick_header =
     [''# Interactive rebranch - Edit the list of commits to apply'',
      ''# Commands:'',
      ''#  pick, p = apply this commit'',
      ''#  drop, d = skip this commit'',
      ''#'',
      ''# Lines starting with # are ignored.'',
      []]"

definition pick_line :: "CommitInfo \<Rightarrow> string" where
  "pick_line commit = ''pick '' @ shortSHA (SHA commit) @ '' '' @ Message commit"

definition pick_content :: "CommitInfo list \<Rightarrow> string" where
  "pick_content commits = Join_lines (pick_header @ map pick_line commits) @ [CHR 0x0A]"

definition CreateInteractiveFile :: "CommitInfo list \<Rightarrow> world \<Rightarrow> error option \<times> world" where
  "CreateInteractiveFile commits w =
     (if fs_ok w then (None, w\<lparr>pick_file := Some (pick_content commits)\<rparr>)
      else (Some CreatePickFileFailed, w))"

text \<open>
  The lookup table of the parser: a later commit with the same short identifier
  replaces an earlier one, as assignment to a Go map does.
\<close>

fun commitMap :: "CommitInfo list \<Rightarrow> (string \<rightharpoonup> CommitInfo) \<Rightarrow> (string \<rightharpoonup> CommitInfo)" where
  "commitMap [] m = m"
| "commitMap (commit # commits) m = commitMap commits (m(shortSHA (SHA commit) \<mapsto> commit))"

definition normalize_action :: "string \<Rightarrow> string option" where
  "normalize_action action =
     (if action = ''pick'' \<or> action = ''p'' then Some ''pick''
      else if action = ''drop'' \<or> action = ''d'' then Some ''drop''
      else None)"

fun parse_lines ::
  "(string \<rightharpoonup> CommitInfo) \<Rightarrow> nat \<Rightarrow> string list \<Rightarrow> CommitInfo list \<Rightarrow> error + CommitInfo list"
where
  "parse_lines m lineNum [] selected = Inr selected"
| "parse_lines m lineNum (l # ls) selected =
     (if TrimSpace l = [] \<or> HasPrefix (TrimSpace l) ''#''
      then parse_lines m (lineNum + 1) ls selected
      else if length (Fields (TrimSpace l)) < 2
      then Inl (InvalidLine (lineNum + 1) (TrimSpace l))
      else (case normalize_action (Fields (TrimSpace l) ! 0) of
              None \<Rightarrow> Inl (InvalidAction (Fields (TrimSpace l) ! 0) (lineNum + 1))
            | Some action \<Rightarrow>
               (case m (Fields (TrimSpace l) ! 1) of
                  None \<Rightarrow> Inl (UnknownCommit (Fields (TrimSpace l) ! 1) (lineNum + 1))
                | Some originalCommit \<Rightarrow>
                    parse_lines m (lineNum + 1) ls
                      (selected @ [\<lparr>SHA = SHA originalCommit,
                                    Message = Message originalCommit,
                                    Action = action\<rparr>]))))"

definition parse_content :: "string \<Rightarrow> CommitInfo list \<Rightarrow> error + CommitInfo list" where
  "parse_content text originalCommits =
     (case parse_lines (commitMap originalCommits Map.empty) 0 (Split_lines text) [] of
        Inl e \<Rightarrow> Inl e
      | Inr selected \<Rightarrow> if selected = [] then Inl EmptySelection else Inr selected)"

definition ParseInteractiveFile :: "world \<Rightarrow> CommitInfo list \<Rightarrow> error + CommitInfo list" where
  "ParseInteractiveFile w originalCommits =
     (case pick_file w of
        None \<Rightarrow> Inl ReadPickFileFailed
      | Some text \<Rightarrow> parse_content text originalCommits)"

definition LaunchEditor :: "world \<Rightarrow> error option \<times> world" where
  "LaunchEditor w =
     (case pick_file w of
        None \<Rightarrow> (Some EditorFailed, w)
      | Some text \<Rightarrow>
         (case editor w text of
            None \<Rightarrow> (Some EditorFailed, w)
          | Some text' \<Rightarrow> (None, w\<lparr>pick_file := Some text'\<rparr>)))"

section \<open>Git operations (git.go)\<close>

definition GetCurrentBranch :: "world \<Rightarrow> error + string" where
  "GetCurrentBranch w =
     (case HEAD w of
        NoHead \<Rightarrow> Inl HeadUnresolved
      | Detached \<Rightarrow> Inl DetachedHead
      | OnBranch b \<Rightarrow> Inr b)"

definition BranchExists :: "world \<Rightarrow> string \<Rightarrow> bool" where
  "BranchExists w branch = (branches w branch \<noteq> None)"

text \<open>
  \<^verbatim>\<open>isAncestor(ancestor, descendant)\<close> asks the library whether the commit it calls
  \<^verbatim>\<open>descendant\<close> is an ancestor of the one it calls \<^verbatim>\<open>ancestor\<close>:
  \<^verbatim>\<open>descendantCommit.IsAncestor(ancestorCommit)\<close>.
\<close>

definition isAncestor :: "world \<Rightarrow> string \<Rightarrow> string \<Rightarrow> error + bool" where
  "isAncestor w ancestor descendant =
     (if ancestor = descendant then Inr True
      else (case objects w descendant of
              None \<Rightarrow> Inl AncestryFailed
            | Some descendantCommit \<Rightarrow>
               (case objects w ancestor of
                  None \<Rightarrow> Inl AncestryFailed
                | Some ancestorCommit \<Rightarrow>
                   (case IsAncestor w descendantCommit ancestorCommit of
                      None \<Rightarrow> Inl AncestryFailed
                    | Some b \<Rightarrow> Inr b))))"

text \<open>
  The callback of \<^verbatim>\<open>commitIter.ForEach\<close> in \<^verbatim>\<open>GetCommitsBetween\<close>, run over the commits
  the iterator yields. Returning \<^verbatim>\<open>nil\<close> at the base commit goes on to the next commit;
  an error stops the iteration, and the commits collected so far are returned with it.
\<close>

fun collect_commits ::
  "world \<Rightarrow> string \<Rightarrow> commit_obj list \<Rightarrow> CommitInfo list \<Rightarrow> CommitInfo list \<times> error option"
where
  "collect_commits w baseHash [] commits = (commits, None)"
| "collect_commits w baseHash (commit # rest) commits =
     (if Hash commit = baseHash then collect_commits w baseHash rest commits
      else (case isAncestor w baseHash (Hash commit) of
              Inl e \<Rightarrow> (commits, Some e)
            | Inr anc \<Rightarrow>
               (if \<not> anc
                then collect_commits w baseHash rest
                       (\<lparr>SHA = Hash commit,
                         Message = TrimSpace (CommitMessage commit),
                         Action = ''pick''\<rparr> # commits)
                else collect_commits w baseHash rest commits)))"

definition GetCommitsBetween :: "world \<Rightarrow> string \<Rightarrow> string \<Rightarrow> CommitInfo list \<times> error option" where
  "GetCommitsBetween w base head =
     (case branches w base of
        None \<Rightarrow> ([], Some (BaseNotFound base))
      | Some baseRef \<Rightarrow>
         (case branches w head of
            None \<Rightarrow> ([], Some (HeadNotFound head))
          | Some headRef \<Rightarrow>
             (case objects w baseRef of
                None \<Rightarrow> ([], Some BaseCommitFailed)
              | Some baseCommit \<Rightarrow>
                 (case objects w headRef of
                    None \<Rightarrow> ([], Some HeadCommitFailed)
                  | Some headCommit \<Rightarrow>
                     (if Hash baseCommit = Hash headCommit then ([], None)
                      else (case Log w (Hash headCommit) of
                              None \<Rightarrow> ([], Some CommitLogFailed)
                            | Some iter \<Rightarrow> collect_commits w (Hash baseCommit) iter []))))))"

text \<open>
  The operations that change the repository. \<^verbatim>\<open>CreateBranch\<close> sets the reference, also
  when one of that name exists. The three that run the \<^verbatim>\<open>git\<close> command fail where git
  refuses: checking out a branch that does not exist, deleting one that does not exist
  or is checked out, renaming one that does not exist or onto another existing name.
  \<^verbatim>\<open>git cherry-pick\<close> succeeds or fails depending on the commit that is checked out and
  on the commit picked; when it succeeds, it moves the branch that is checked out.
\<close>

definition CreateBranch :: "string \<Rightarrow> string \<Rightarrow> world \<Rightarrow> error option \<times> world" where
  "CreateBranch name base w =
     (case branches w base of
        None \<Rightarrow> (Some (BaseNotFound base), w)
      | Some baseRef \<Rightarrow> (None, w\<lparr>branches := (branches w)(name \<mapsto> baseRef)\<rparr>))"

definition CheckoutBranch :: "string \<Rightarrow> world \<Rightarrow> error option \<times> world" where
  "CheckoutBranch name w =
     (if branches w name = None then (Some (CheckoutFailed name), w)
      else (None, w\<lparr>HEAD := OnBranch name\<rparr>))"

definition checked_out :: "world \<Rightarrow> string option" where
  "checked_out w = (case HEAD w of OnBranch b \<Rightarrow> branches w b | _ \<Rightarrow> None)"

definition CherryPick :: "string \<Rightarrow> world \<Rightarrow> error option \<times> world" where
  "CherryPick sha w =
     (if cherry_pick_ok w (checked_out w) sha
      then (None,
            (case HEAD w of
               OnBranch b \<Rightarrow>
                 (case branches w b of
                    Some tip \<Rightarrow> w\<lparr>branches := (branches w)(b \<mapsto> picked w tip sha)\<rparr>
                  | None \<Rightarrow> w)
             | _ \<Rightarrow> w))
      else (Some (CherryPickFailed sha), w))"

definition DeleteBranch :: "string \<Rightarrow> world \<Rightarrow> error option \<times> world" where
  "DeleteBranch name w =
     (if branches w name = None \<or> HEAD w = OnBranch name
      then (Some (DeleteBranchFailed name), w)
      else (None, w\<lparr>branches := (branches w)(name := None)\<rparr>))"

definition RenameBranch :: "string \<Rightarrow> string \<Rightarrow> world \<Rightarrow> error option \<times> world" where
  "RenameBranch oldName newName w =
     (case branches w oldName of
        None \<Rightarrow> (Some (RenameBranchFailed oldName newName), w)
      | Some tip \<Rightarrow>
         (if newName \<noteq> oldName \<and> branches w newName \<noteq> None
          then (Some (RenameBranchFailed oldName newName), w)
          else (None, w\<lparr>branches := ((branches w)(oldName := None))(newName \<mapsto> tip),
                         HEAD := (if HEAD w = OnBranch oldName then OnBranch newName
                                  else HEAD w)\<rparr>)))"

definition HasUncommittedChanges :: "world \<Rightarrow> error + bool" where
  "HasUncommittedChanges w =
     (case clean w of None \<Rightarrow> Inl StatusFailed | Some isClean \<Rightarrow> Inr (\<not> isClean))"

definition IsCleanWorkingDirectory :: "world \<Rightarrow> error + bool" where
  "IsCleanWorkingDirectory w =
     (case HasUncommittedChanges w of Inl e \<Rightarrow> Inl e | Inr hasChanges \<Rightarrow> Inr (\<not> hasChanges))"

text \<open>\<^verbatim>\<open>HasOngoingOperation\<close> never returns an error; the record file counts as an operation.\<close>

definition HasOngoingOperation :: "world \<Rightarrow> bool \<times> string" where
  "HasOngoingOperation w =
     (case marker w of
        Some operation \<Rightarrow> (True, operation)
      | None \<Rightarrow> if state_file w \<noteq> None then (True, ''rebranch'') else (False, []))"

definition IsValidRepository :: "world \<Rightarrow> error option" where
  "IsValidRepository w =
     (if \<not> git_dir w then Some InvalidRepository
      else if HEAD w = NoHead then Some InvalidRepository
      else None)"

section \<open>Ancestry, and what the two library calls are taken to do\<close>

text \<open>
  A commit's parents are the hashes its object lists. A commit \<open>a\<close> is an ancestor of \<open>c\<close>
  when \<open>c\<close>'s history traces back to \<open>a\<close>; a commit counts as its own ancestor, as for
  \<^verbatim>\<open>git merge-base --is-ancestor\<close>.
\<close>

definition parent_of :: "world \<Rightarrow> (string \<times> string) set" where
  "parent_of w = {(c, p). \<exists>co. objects w c = Some co \<and> p \<in> set (ParentHashes co)}"

definition is_ancestor_of :: "world \<Rightarrow> string \<Rightarrow> string \<Rightarrow> bool" where
  "is_ancestor_of w a c = ((c, a) \<in> (parent_of w)\<^sup>*)"



text \<open>The entry \<^verbatim>\<open>GetCommitsBetween\<close> builds for a commit.\<close>

definition entry_of :: "commit_obj \<Rightarrow> CommitInfo" where
  "entry_of c = \<lparr>SHA = Hash c, Message = TrimSpace (CommitMessage c), Action = ''pick''\<rparr>"

text \<open>The first line of a text, in the words of the specification's data model.\<close>

definition first_line :: "string \<Rightarrow> string" where
  "first_line s = takeWhile (\<lambda>c. c \<noteq> CHR 0x0A) s"

section \<open>State persistence (store.go)\<close>

definition StateExists :: "world \<Rightarrow> bool" where
  "StateExists w = (state_file w \<noteq> None)"

definition SaveState :: "RebranchState \<Rightarrow> world \<Rightarrow> error option \<times> world" where
  "SaveState st w =
     (if fs_ok w then (None, w\<lparr>state_file := Some st\<rparr>) else (Some WriteStateFailed, w))"

definition LoadState :: "world \<Rightarrow> error + RebranchState" where
  "LoadState w = (case state_file w of None \<Rightarrow> Inl LoadStateFailed | Some st \<Rightarrow> Inr st)"

definition ClearState :: "world \<Rightarrow> error option \<times> world" where
  "ClearState w =
     (if \<not> StateExists w then (None, w)
      else if fs_ok w then (None, w\<lparr>state_file := None\<rparr>)
      else (Some RemoveStateFailed, w))"

section \<open>Pre-flight checks (validation.go)\<close>

definition validateStart :: "string \<Rightarrow> world \<Rightarrow> error option" where
  "validateStart baseBranch w =
     (case IsValidRepository w of
        Some e \<Rightarrow> Some e
      | None \<Rightarrow>
         (if StateExists w then Some AlreadyInProgress
          else (case HasOngoingOperation w of
                  (hasOp, opType) \<Rightarrow>
                   (if hasOp then Some (ForeignOperation opType)
                    else (case IsCleanWorkingDirectory w of
                            Inl e \<Rightarrow> Some e
                          | Inr isClean \<Rightarrow>
                             (if \<not> isClean then Some WorkingDirectoryNotClean
                              else if \<not> BranchExists w baseBranch
                              then Some (BaseBranchMissing baseBranch)
                              else (case GetCurrentBranch w of
                                      Inl e \<Rightarrow> Some e
                                    | Inr currentBranch \<Rightarrow>
                                       (if currentBranch = baseBranch
                                        then Some (SameAsBase currentBranch)
                                        else None))))))))"

definition validateContinue :: "world \<Rightarrow> error option" where
  "validateContinue w =
     (case IsValidRepository w of
        Some e \<Rightarrow> Some e
      | None \<Rightarrow>
         (if \<not> StateExists w then Some NoOperationInProgress
          else (case LoadState w of
                  Inl e \<Rightarrow> Some e
                | Inr rebranchState \<Rightarrow>
                   (if Stage rebranchState \<noteq> ''conflicts''
                    then Some (NotWaitingForConflicts (Stage rebranchState))
                    else (case IsCleanWorkingDirectory w of
                            Inl e \<Rightarrow> Some e
                          | Inr isClean \<Rightarrow>
                             (if \<not> isClean then Some WorkingDirectoryNotClean else None))))))"

definition validateFinish :: "world \<Rightarrow> error option" where
  "validateFinish w =
     (case IsValidRepository w of
        Some e \<Rightarrow> Some e
      | None \<Rightarrow>
         (if \<not> StateExists w then Some NoOperationInProgress
          else (case LoadState w of
                  Inl e \<Rightarrow> Some e
                | Inr rebranchState \<Rightarrow>
                   (if Stage rebranchState \<noteq> ''done''
                    then Some (NotReadyToFinish (Stage rebranchState))
                    else (case GetCurrentBranch w of
                            Inl e \<Rightarrow> Some e
                          | Inr currentBranch \<Rightarrow>
                             (if currentBranch \<noteq> TempBranch rebranchState
                              then Some (NotOnTempBranch (TempBranch rebranchState) currentBranch)
                              else (case IsCleanWorkingDirectory w of
                                      Inl e \<Rightarrow> Some e
                                    | Inr isClean \<Rightarrow>
                                       (if \<not> isClean then Some WorkingDirectoryNotClean
                                        else None))))))))"

definition validateAbort :: "world \<Rightarrow> error option" where
  "validateAbort w =
     (case IsValidRepository w of
        Some e \<Rightarrow> Some e
      | None \<Rightarrow> if \<not> StateExists w then Some NoOperationInProgress else None)"

section \<open>The workflow (rebranch.go)\<close>

definition TempBranchPrefix :: string where
  "TempBranchPrefix = ''rebranch-temp-''"

text \<open>
  One turn of the loop of \<^verbatim>\<open>ApplyCherryPicks\<close>, at index \<open>i\<close> with \<open>commit\<close> the entry
  there. The result is the error returned from inside the loop, if any, the
  environment, and the in-memory record. \<^verbatim>\<open>commit.SHA[:7]\<close> panics on an identifier
  shorter than seven bytes.
\<close>

definition apply_entry ::
  "nat \<Rightarrow> CommitInfo \<Rightarrow> world \<Rightarrow> RebranchState \<Rightarrow> error option \<times> world \<times> RebranchState"
where
  "apply_entry i commit w state =
     (if Action commit = ''drop'' then (None, w, state)
      else (case CherryPick (SHA commit) w of
              (Some err, w1) \<Rightarrow>
                (case SaveState (state\<lparr>CurrentCommitIdx := i, Stage := ''conflicts''\<rparr>) w1 of
                   (Some saveErr, w2) \<Rightarrow>
                     (Some SaveAfterConflictFailed, w2,
                      state\<lparr>CurrentCommitIdx := i, Stage := ''conflicts''\<rparr>)
                 | (None, w2) \<Rightarrow>
                     (if length (SHA commit) < 7
                      then (Some Panic, w2,
                            state\<lparr>CurrentCommitIdx := i, Stage := ''conflicts''\<rparr>)
                      else (Some (ConflictDetected (take 7 (SHA commit))), w2,
                            state\<lparr>CurrentCommitIdx := i, Stage := ''conflicts''\<rparr>)))
            | (None, w1) \<Rightarrow>
                (case SaveState (state\<lparr>CurrentCommitIdx := i\<rparr>) w1 of
                   (Some e, w2) \<Rightarrow> (Some e, w2, state\<lparr>CurrentCommitIdx := i\<rparr>)
                 | (None, w2) \<Rightarrow> (None, w2, state\<lparr>CurrentCommitIdx := i\<rparr>))))"

text \<open>The loop over the entries from index \<open>i\<close> on; the plan itself never changes.\<close>

fun apply_loop ::
  "nat \<Rightarrow> CommitInfo list \<Rightarrow> world \<Rightarrow> RebranchState \<Rightarrow> error option \<times> world \<times> RebranchState"
where
  "apply_loop i [] w state = (None, w, state)"
| "apply_loop i (commit # rest) w state =
     (case apply_entry i commit w state of
        (Some e, w', state') \<Rightarrow> (Some e, w', state')
      | (None, w', state') \<Rightarrow> apply_loop (i + 1) rest w' state')"

definition ApplyCherryPicks :: "RebranchState \<Rightarrow> world \<Rightarrow> error option \<times> world" where
  "ApplyCherryPicks state w =
     (case apply_loop (CurrentCommitIdx state)
             (drop (CurrentCommitIdx state) (CommitsToApply state)) w state of
        (Some e, w', state') \<Rightarrow> (Some e, w')
      | (None, w', state') \<Rightarrow> SaveState (state'\<lparr>Stage := ''done''\<rparr>) w')"

text \<open>
  What the cherry-picks of a run of entries do to the repository, apart from any
  bookkeeping: every entry that is not dropped is picked in turn, each on top of what
  the picks before it left; \<open>None\<close> when one of them fails.
\<close>

fun cherry_picks :: "CommitInfo list \<Rightarrow> world \<Rightarrow> world option" where
  "cherry_picks [] w = Some w"
| "cherry_picks (commit # rest) w =
     (if Action commit = ''drop'' then cherry_picks rest w
      else (case CherryPick (SHA commit) w of
              (None, w1) \<Rightarrow> cherry_picks rest w1
            | (Some e, w1) \<Rightarrow> None))"

text \<open>
  \<^verbatim>\<open>startRebranch\<close>. Printing the commits found slices every \<^verbatim>\<open>SHA[:7]\<close>, so an
  identifier shorter than seven bytes panics there.
\<close>

definition startRebranch :: "string \<Rightarrow> world \<Rightarrow> error option \<times> world" where
  "startRebranch baseBranch w =
     (case validateStart baseBranch w of
        Some e \<Rightarrow> (Some e, w)
      | None \<Rightarrow>
     (case GetCurrentBranch w of
        Inl e \<Rightarrow> (Some e, w)
      | Inr sourceBranch \<Rightarrow>
     (case GetCommitsBetween w baseBranch sourceBranch of
        (commits, Some e) \<Rightarrow> (Some e, w)
      | (commits, None) \<Rightarrow>
     (if commits = [] then (Some NoCommits, w)
      else if list_ex (\<lambda>commit. length (SHA commit) < 7) commits then (Some Panic, w)
      else
     (case CreateInteractiveFile commits w of
        (Some e, w1) \<Rightarrow> (Some e, w1)
      | (None, w1) \<Rightarrow>
     (case LaunchEditor w1 of
        (Some e, w2) \<Rightarrow> (Some e, w2)
      | (None, w2) \<Rightarrow>
     (case ParseInteractiveFile w2 commits of
        Inl e \<Rightarrow> (Some e, w2)
      | Inr selectedCommits \<Rightarrow>
     (case CreateBranch (TempBranchPrefix @ itoa (now w2)) baseBranch w2 of
        (Some e, w3) \<Rightarrow> (Some e, w3)
      | (None, w3) \<Rightarrow>
     (case CheckoutBranch (TempBranchPrefix @ itoa (now w2)) w3 of
        (Some e, w4) \<Rightarrow> (Some e, w4)
      | (None, w4) \<Rightarrow>
     (case SaveState \<lparr>SourceBranch = sourceBranch, BaseBranch = baseBranch,
                      TempBranch = TempBranchPrefix @ itoa (now w2),
                      CommitsToApply = selectedCommits,
                      CurrentCommitIdx = 0, Stage = ''picking''\<rparr> w4 of
        (Some e, w5) \<Rightarrow> (Some e, w5)
      | (None, w5) \<Rightarrow>
          ApplyCherryPicks \<lparr>SourceBranch = sourceBranch, BaseBranch = baseBranch,
                            TempBranch = TempBranchPrefix @ itoa (now w2),
                            CommitsToApply = selectedCommits,
                            CurrentCommitIdx = 0, Stage = ''picking''\<rparr> w5))))))))))"

definition continueRebranch :: "world \<Rightarrow> error option \<times> world" where
  "continueRebranch w =
     (case validateContinue w of
        Some e \<Rightarrow> (Some e, w)
      | None \<Rightarrow>
         (case LoadState w of
            Inl e \<Rightarrow> (Some e, w)
          | Inr rebranchState \<Rightarrow>
              ApplyCherryPicks
                (rebranchState\<lparr>CurrentCommitIdx := CurrentCommitIdx rebranchState + 1,
                               Stage := ''picking''\<rparr>) w))"

definition finishRebranch :: "world \<Rightarrow> error option \<times> world" where
  "finishRebranch w =
     (case validateFinish w of
        Some e \<Rightarrow> (Some e, w)
      | None \<Rightarrow>
         (case LoadState w of
            Inl e \<Rightarrow> (Some e, w)
          | Inr state \<Rightarrow>
             (case DeleteBranch (SourceBranch state) w of
                (Some e, w1) \<Rightarrow> (Some (DeleteOriginalFailed (SourceBranch state)), w1)
              | (None, w1) \<Rightarrow>
                 (case RenameBranch (TempBranch state) (SourceBranch state) w1 of
                    (Some e, w2) \<Rightarrow>
                      (Some (RenameTempFailed (TempBranch state) (SourceBranch state)), w2)
                  | (None, w2) \<Rightarrow> ClearState w2))))"


section \<open>Concrete environments\<close>

definition quiet_world :: world where
  "quiet_world =
     \<lparr>git_dir = True, HEAD = OnBranch ''feature'',
      branches = [''main'' \<mapsto> ''m1'', ''feature'' \<mapsto> ''f1''],
      objects = Map.empty, Log = (\<lambda>h. None), IsAncestor = (\<lambda>c d. None),
      clean = Some True, marker = None,
      cherry_pick_ok = (\<lambda>tip s. True), picked = (\<lambda>t s. t @ ''+'' @ s),
      state_file = None, pick_file = None, fs_ok = False,
      editor = (\<lambda>s. Some s), now = 1700000000\<rparr>"

text \<open>
  In \<open>busy_world\<close> below a cherry-pick fails for one commit that always conflicts, and
  for any commit that is the one last applied to the tip (git refuses the empty pick).
\<close>

definition tip_ends_with :: "string option \<Rightarrow> string \<Rightarrow> bool" where
  "tip_ends_with tip sha =
     (case tip of None \<Rightarrow> False | Some t \<Rightarrow> drop (length t - length sha) t = sha)"

definition twice_plan :: "CommitInfo list" where
  "twice_plan =
     [\<lparr>SHA = ''aaa1111111'', Message = ''one'', Action = ''pick''\<rparr>,
      \<lparr>SHA = ''bbb2222222'', Message = ''two'', Action = ''drop''\<rparr>,
      \<lparr>SHA = ''aaa1111111'', Message = ''one'', Action = ''pick''\<rparr>]"

definition twice_state :: RebranchState where
  "twice_state =
     \<lparr>SourceBranch = ''feature'', BaseBranch = ''main'', TempBranch = ''rebranch-temp-5'',
      CommitsToApply = twice_plan, CurrentCommitIdx = 0, Stage = ''picking''\<rparr>"

definition demo_plan :: "CommitInfo list" where
  "demo_plan =
     [\<lparr>SHA = ''aaa1111111'', Message = ''one'', Action = ''pick''\<rparr>,
      \<lparr>SHA = ''bbb2222222'', Message = ''two'', Action = ''drop''\<rparr>,
      \<lparr>SHA = ''ccc3333333'', Message = ''three'', Action = ''pick''\<rparr>]"

definition demo_state :: RebranchState where
  "demo_state =
     \<lparr>SourceBranch = ''feature'', BaseBranch = ''main'', TempBranch = ''rebranch-temp-5'',
      CommitsToApply = demo_plan, CurrentCommitIdx = 0, Stage = ''picking''\<rparr>"

definition busy_world :: world where
  "busy_world =
     \<lparr>git_dir = True, HEAD = OnBranch ''rebranch-temp-5'',
      branches = [''main'' \<mapsto> ''m1'', ''feature'' \<mapsto> ''f1'', ''rebranch-temp-5'' \<mapsto> ''m1''],
      objects = Map.empty, Log = (\<lambda>h. None), IsAncestor = (\<lambda>c d. None),
      clean = Some True, marker = None,
      cherry_pick_ok = (\<lambda>tip s. s \<noteq> ''ccc3333333'' \<and> \<not> tip_ends_with tip s),
      picked = (\<lambda>t s. t @ ''+'' @ s),
      state_file = Some demo_state, pick_file = None, fs_ok = True,
      editor = (\<lambda>s. Some s), now = 5\<rparr>"

definition conflicted_world :: world where
  "conflicted_world = busy_world\<lparr>state_file := Some (demo_state\<lparr>Stage := ''conflicts''\<rparr>)\<rparr>"

definition orphan_world :: world where
  "orphan_world = conflicted_world\<lparr>HEAD := NoHead\<rparr>"

definition strayed_world :: world where
  "strayed_world = conflicted_world\<lparr>HEAD := OnBranch ''feature'', cherry_pick_ok := (\<lambda>tip s. True)\<rparr>"

definition commit_r :: commit_obj where
  "commit_r = \<lparr>Hash = ''r'', CommitMessage = ''root'' @ [CHR 0x0A], ParentHashes = []\<rparr>"

definition commit_x :: commit_obj where
  "commit_x = \<lparr>Hash = ''x'', CommitMessage = ''shared'' @ [CHR 0x0A], ParentHashes = [''r'']\<rparr>"

definition commit_m :: commit_obj where
  "commit_m = \<lparr>Hash = ''m'', CommitMessage = ''merge x'' @ [CHR 0x0A],
               ParentHashes = [''r'', ''x'']\<rparr>"

definition commit_f :: commit_obj where
  "commit_f = \<lparr>Hash = ''f'',
               CommitMessage = ''Subject'' @ [CHR 0x0A, CHR 0x0A] @ ''Body'' @ [CHR 0x0A],
               ParentHashes = [''x'']\<rparr>"

definition commit_g :: commit_obj where
  "commit_g = \<lparr>Hash = ''g'', CommitMessage = ''Add g'' @ [CHR 0x0A], ParentHashes = [''f'']\<rparr>"

definition graph_pairs :: "(string \<times> string) list" where
  "graph_pairs = [(''r'', ''x''), (''r'', ''m''), (''x'', ''m''), (''x'', ''f''), (''r'', ''f''),
                  (''f'', ''g''), (''x'', ''g''), (''r'', ''g'')]"

definition graph_world :: world where
  "graph_world = quiet_world
     \<lparr>branches := [''main'' \<mapsto> ''m'', ''feature'' \<mapsto> ''g''],
      objects := [''r'' \<mapsto> commit_r, ''x'' \<mapsto> commit_x, ''m'' \<mapsto> commit_m,
                  ''f'' \<mapsto> commit_f, ''g'' \<mapsto> commit_g],
      Log := (\<lambda>h. if h = ''g'' then Some [commit_g, commit_f, commit_x, commit_r] else None),
      IsAncestor := (\<lambda>c d. Some (Hash c = Hash d \<or> (Hash c, Hash d) \<in> set graph_pairs))\<rparr>"

definition body_commit :: CommitInfo where
  "body_commit = \<lparr>SHA = ''abc1234567890'',
                  Message = ''Fix bug'' @ [CHR 0x0A, CHR 0x0A] @ ''Details here'',
                  Action = ''pick''\<rparr>"

definition twin_commits :: "CommitInfo list" where
  "twin_commits = [\<lparr>SHA = ''abc1234aaa'', Message = ''first'', Action = ''pick''\<rparr>,
                   \<lparr>SHA = ''abc1234bbb'', Message = ''second'', Action = ''pick''\<rparr>]"

section \<open>Facts about the operations\<close>

lemma SaveState_ok: "fs_ok w \<Longrightarrow> SaveState st w = (None, w\<lparr>state_file := Some st\<rparr>)"
  by (simp add: SaveState_def)

lemma SaveState_fail: "\<not> fs_ok w \<Longrightarrow> SaveState st w = (Some WriteStateFailed, w)"
  by (simp add: SaveState_def)

lemma CherryPick_fail:
  "\<not> cherry_pick_ok w (checked_out w) s \<Longrightarrow> CherryPick s w = (Some (CherryPickFailed s), w)"
  by (simp add: CherryPick_def)

lemma CherryPick_failed_unchanged:
  "fst (CherryPick s w) \<noteq> None \<Longrightarrow> CherryPick s w = (Some (CherryPickFailed s), w)"
  by (simp add: CherryPick_def split: if_splits)

lemma CherryPick_fs_ok: "fs_ok (snd (CherryPick s w)) = fs_ok w"
  by (simp add: CherryPick_def checked_out_def split: head_ref.splits option.splits)

lemma CherryPick_state_file_upd:
  "CherryPick s (w\<lparr>state_file := sf\<rparr>) =
     (fst (CherryPick s w), (snd (CherryPick s w))\<lparr>state_file := sf\<rparr>)"
  by (simp add: CherryPick_def checked_out_def split: head_ref.splits option.splits)

lemma cherry_picks_state_file_upd:
  "cherry_picks cs (w\<lparr>state_file := sf\<rparr>) =
     map_option (\<lambda>g. g\<lparr>state_file := sf\<rparr>) (cherry_picks cs w)"
proof (induction cs arbitrary: w)
  case Nil
  then show ?case by simp
next
  case (Cons c cs)
  obtain r w1 where cp: "CherryPick (SHA c) w = (r, w1)" by (cases "CherryPick (SHA c) w") auto
  then have "CherryPick (SHA c) (w\<lparr>state_file := sf\<rparr>) = (r, w1\<lparr>state_file := sf\<rparr>)"
    by (simp add: CherryPick_state_file_upd)
  with cp Cons.IH show ?case by (cases r) simp_all
qed


lemma apply_entry_drop: "Action commit = ''drop'' \<Longrightarrow> apply_entry i commit w st = (None, w, st)"
  by (simp add: apply_entry_def)

lemma apply_entry_picked:
  assumes "Action commit \<noteq> ''drop''" and "CherryPick (SHA commit) w = (None, w1)" and "fs_ok w"
  shows "apply_entry i commit w st =
           (None, w1\<lparr>state_file := Some (st\<lparr>CurrentCommitIdx := i\<rparr>)\<rparr>,
            st\<lparr>CurrentCommitIdx := i\<rparr>)"
proof -
  from CherryPick_fs_ok [of "SHA commit" w] assms(2,3) have "fs_ok w1" by simp
  with assms show ?thesis by (simp add: apply_entry_def SaveState_def)
qed


lemma apply_entry_conflict:
  assumes "Action commit \<noteq> ''drop''" "fst (CherryPick (SHA commit) w) \<noteq> None" "fs_ok w"
  shows "apply_entry i commit w st =
           ((if length (SHA commit) < 7 then Some Panic
             else Some (ConflictDetected (take 7 (SHA commit)))),
            w\<lparr>state_file := Some (st\<lparr>CurrentCommitIdx := i, Stage := ''conflicts''\<rparr>)\<rparr>,
            st\<lparr>CurrentCommitIdx := i, Stage := ''conflicts''\<rparr>)"
  using assms(1,3) CherryPick_failed_unchanged [OF assms(2)]
  by (simp add: apply_entry_def SaveState_def)

lemma apply_loop_conflict:
  assumes "fs_ok w" and "cherry_picks pre w = Some g"
    and "Action x \<noteq> ''drop''" and "fst (CherryPick (SHA x) g) \<noteq> None"
  shows "apply_loop i (pre @ x # post) w st =
           ((if length (SHA x) < 7 then Some Panic
             else Some (ConflictDetected (take 7 (SHA x)))),
            g\<lparr>state_file := Some (st\<lparr>CurrentCommitIdx := i + length pre,
                                       Stage := ''conflicts''\<rparr>)\<rparr>,
            st\<lparr>CurrentCommitIdx := i + length pre, Stage := ''conflicts''\<rparr>)"
  using assms
proof (induction pre arbitrary: i w st g)
  case Nil
  then show ?case by (simp add: apply_entry_conflict)
next
  case (Cons c pre)
  show ?case
  proof (cases "Action c = ''drop''")
    case True
    with Cons.prems have "cherry_picks pre w = Some g" by simp
    from Cons.IH [OF Cons.prems(1) this Cons.prems(3,4), of "i + 1" st] True show ?thesis
      by (simp add: apply_entry_drop)
  next
    case False
    obtain r w1 where cp: "CherryPick (SHA c) w = (r, w1)"
      by (cases "CherryPick (SHA c) w") auto
    with False Cons.prems(2) have r: "r = None" and rest: "cherry_picks pre w1 = Some g"
      by (cases r; simp)+
    let ?st = "st\<lparr>CurrentCommitIdx := i\<rparr>"
    let ?w = "w1\<lparr>state_file := Some ?st\<rparr>" and ?g = "g\<lparr>state_file := Some ?st\<rparr>"
    from cp r have step: "apply_entry i c w st = (None, ?w, ?st)"
      using apply_entry_picked [OF False _ Cons.prems(1)] by simp
    from CherryPick_fs_ok [of "SHA c" w] cp Cons.prems(1) have ok: "fs_ok ?w" by simp
    from rest have picks: "cherry_picks pre ?w = Some ?g"
      by (simp add: cherry_picks_state_file_upd)
    from Cons.prems(4) have fails: "fst (CherryPick (SHA x) ?g) \<noteq> None"
      by (simp add: CherryPick_state_file_upd)
    from Cons.IH [OF ok picks Cons.prems(3) fails, of "i + 1" ?st] step
    show ?thesis by simp
  qed
qed

lemma drop_split_at:
  assumes "c \<le> i" "i < length xs"
  shows "drop c xs = take (i - c) (drop c xs) @ xs ! i # drop (Suc i) xs"
proof -
  have "i - c < length (drop c xs)" using assms by simp
  from id_take_nth_drop [OF this] assms show ?thesis by simp
qed




lemma validateContinue_iff:
  "validateContinue w = None \<longleftrightarrow>
     IsValidRepository w = None \<and> (\<exists>st. state_file w = Some st \<and> Stage st = ''conflicts'')
     \<and> clean w = Some True"
  by (auto simp: validateContinue_def LoadState_def StateExists_def IsCleanWorkingDirectory_def
        HasUncommittedChanges_def split: option.splits if_splits sum.splits)

lemma validateAbort_iff:
  "validateAbort w = None \<longleftrightarrow> IsValidRepository w = None \<and> state_file w \<noteq> None"
  by (auto simp: validateAbort_def StateExists_def split: option.splits)

lemma CherryPick_frame:
  assumes "HEAD w = OnBranch t" and "b \<noteq> t" and "CherryPick s w = (r, w')"
  shows "branches w' b = branches w b \<and> HEAD w' = OnBranch t"
  using assms by (auto simp: CherryPick_def checked_out_def split: if_splits option.splits)

lemma SaveState_frame:
  "SaveState st w = (r, w') \<Longrightarrow> branches w' = branches w \<and> HEAD w' = HEAD w"
  by (auto simp: SaveState_def split: if_splits)

lemma apply_entry_frame:
  assumes "HEAD w = OnBranch t" and "b \<noteq> t" and "apply_entry i c w st = (r, w', st')"
  shows "branches w' b = branches w b \<and> HEAD w' = OnBranch t"
proof (cases "Action c = ''drop''")
  case True
  with assms show ?thesis by (simp add: apply_entry_def)
next
  case False
  obtain r1 w1 where cp: "CherryPick (SHA c) w = (r1, w1)" by (cases "CherryPick (SHA c) w") auto
  from CherryPick_frame [OF assms(1,2) cp]
  have f1: "branches w1 b = branches w b" "HEAD w1 = OnBranch t" by simp_all
  show ?thesis
  proof (cases r1)
    case None
    obtain r2 w2 where sv: "SaveState (st\<lparr>CurrentCommitIdx := i\<rparr>) w1 = (r2, w2)"
      by (cases "SaveState (st\<lparr>CurrentCommitIdx := i\<rparr>) w1") auto
    from SaveState_frame [OF sv] f1 have "branches w2 b = branches w b" "HEAD w2 = OnBranch t"
      by simp_all
    moreover from assms(3) False cp None sv have "w' = w2"
      by (cases r2) (auto simp: apply_entry_def)
    ultimately show ?thesis by simp
  next
    case (Some e)
    obtain r2 w2 where sv:
      "SaveState (st\<lparr>CurrentCommitIdx := i, Stage := ''conflicts''\<rparr>) w1 = (r2, w2)"
      by (cases "SaveState (st\<lparr>CurrentCommitIdx := i, Stage := ''conflicts''\<rparr>) w1") auto
    from SaveState_frame [OF sv] f1 have "branches w2 b = branches w b" "HEAD w2 = OnBranch t"
      by simp_all
    moreover from assms(3) False cp Some sv have "w' = w2"
      by (cases r2) (auto simp: apply_entry_def split: if_splits)
    ultimately show ?thesis by simp
  qed
qed

lemma apply_loop_frame:
  assumes "HEAD w = OnBranch t" and "b \<noteq> t" and "apply_loop i xs w st = (r, w', st')"
  shows "branches w' b = branches w b \<and> HEAD w' = OnBranch t"
  using assms
proof (induction xs arbitrary: i w st)
  case Nil
  then show ?case by simp
next
  case (Cons x xs)
  obtain r1 w1 st1 where e: "apply_entry i x w st = (r1, w1, st1)"
    by (cases "apply_entry i x w st") auto
  from apply_entry_frame [OF Cons.prems(1,2) e]
  have f: "branches w1 b = branches w b" "HEAD w1 = OnBranch t" by simp_all
  show ?case
  proof (cases r1)
    case None
    with e Cons.prems(3) have "apply_loop (i + 1) xs w1 st1 = (r, w', st')" by simp
    from Cons.IH [OF f(2) Cons.prems(2) this] f(1) show ?thesis by simp
  next
    case (Some a)
    with e Cons.prems(3) f show ?thesis by auto
  qed
qed

lemma ApplyCherryPicks_frame:
  assumes "HEAD w = OnBranch t" and "b \<noteq> t"
  shows "branches (snd (ApplyCherryPicks st w)) b = branches w b"
proof -
  obtain r w' st' where l: "apply_loop (CurrentCommitIdx st)
       (drop (CurrentCommitIdx st) (CommitsToApply st)) w st = (r, w', st')"
    by (metis prod_cases3)
  from apply_loop_frame [OF assms l] have f: "branches w' b = branches w b" by simp
  show ?thesis
  proof (cases r)
    case None
    obtain r2 w2 where sv: "SaveState (st'\<lparr>Stage := ''done''\<rparr>) w' = (r2, w2)"
      by (cases "SaveState (st'\<lparr>Stage := ''done''\<rparr>) w'") auto
    from SaveState_frame [OF sv] f l None sv show ?thesis
      by (simp add: ApplyCherryPicks_def)
  next
    case (Some a)
    with l f show ?thesis by (simp add: ApplyCherryPicks_def)
  qed
qed

lemma continueRebranch_frame:
  assumes "HEAD w = OnBranch t" and "b \<noteq> t"
  shows "branches (snd (continueRebranch w)) b = branches w b"
  using ApplyCherryPicks_frame [OF assms]
  by (simp add: continueRebranch_def split: option.splits sum.splits)

lemma startRebranch_frame:
  assumes "b \<noteq> TempBranchPrefix @ itoa (now w)"
  shows "branches (snd (startRebranch baseBranch w)) b = branches w b"
proof -
  let ?t = "TempBranchPrefix @ itoa (now w)"
  have ne: "b \<noteq> ?t" using assms .
  have tail: "branches (snd (ApplyCherryPicks st w5)) b = branches w b"
    if "HEAD w5 = OnBranch ?t" "branches w5 b = branches w b" for st w5
    using ApplyCherryPicks_frame [OF that(1) ne, of st] that(2) by simp
  show ?thesis
    using ne
    by (auto simp: startRebranch_def CreateInteractiveFile_def LaunchEditor_def
          CreateBranch_def CheckoutBranch_def SaveState_def tail
          split: option.splits sum.splits prod.splits if_splits)
qed

section \<open>Facts about the commit range\<close>

lemma is_ancestor_of_refl [simp]: "is_ancestor_of w a a"
  by (simp add: is_ancestor_of_def)



lemma collect_commits_entries:
  assumes "collect_commits w bh cs acc = (result, err)" and "e \<in> set result"
  shows "e \<in> set acc \<or> (\<exists>c\<in>set cs. e = entry_of c)"
  using assms
proof (induction cs arbitrary: acc)
  case Nil
  then show ?case by simp
next
  case (Cons c cs)
  show ?case
  proof (cases "Hash c = bh")
    case True
    with Cons.prems Cons.IH [of acc] show ?thesis by auto
  next
    case False
    show ?thesis
    proof (cases "isAncestor w bh (Hash c)")
      case (Inl a)
      with False Cons.prems show ?thesis by auto
    next
      case (Inr anc)
      show ?thesis
      proof (cases anc)
        case True
        with False Inr Cons.prems Cons.IH [of acc] show ?thesis by auto
      next
        case f: False
        with False Inr Cons.prems have
          "collect_commits w bh cs (entry_of c # acc) = (result, err)"
          by (simp add: entry_of_def)
        from Cons.IH [OF this Cons.prems(2)] show ?thesis by auto
      qed
    qed
  qed
qed

lemma commit_hashes:
  "Hash commit_r = ''r''" "Hash commit_x = ''x''" "Hash commit_m = ''m''"
  "Hash commit_f = ''f''" "Hash commit_g = ''g''"
  by (simp_all add: commit_r_def commit_x_def commit_m_def commit_f_def commit_g_def)

lemma objects_graph:
  "objects graph_world h =
     (if h = ''g'' then Some commit_g
      else if h = ''f'' then Some commit_f
      else if h = ''m'' then Some commit_m
      else if h = ''x'' then Some commit_x
      else if h = ''r'' then Some commit_r
      else None)"
  by (simp add: graph_world_def)



lemma graph_world_refs:
  "branches graph_world ''main'' = Some ''m''" "branches graph_world ''feature'' = Some ''g''"
  "Log graph_world ''g'' = Some [commit_g, commit_f, commit_x, commit_r]"
  by (simp_all add: graph_world_def)

lemma IsAncestor_graph:
  "IsAncestor graph_world c d = Some (Hash c = Hash d \<or> (Hash c, Hash d) \<in> set graph_pairs)"
  by (simp add: graph_world_def)


lemma graph_world_commits:
  "GetCommitsBetween graph_world ''main'' ''feature'' =
     ([\<lparr>SHA = ''f'', Message = ''Subject'' @ [CHR 0x0A, CHR 0x0A] @ ''Body'',
        Action = ''pick''\<rparr>,
       \<lparr>SHA = ''g'', Message = ''Add g'', Action = ''pick''\<rparr>], None)"
  by (simp add: GetCommitsBetween_def graph_world_refs objects_graph isAncestor_def
        IsAncestor_graph commit_hashes graph_pairs_def)
     (simp add: commit_f_def commit_g_def TrimSpace_def isSpace_def)

section \<open>Facts about the listing\<close>

lemma fields_from_token:
  "\<forall>x\<in>set tok. \<not> isSpace x \<Longrightarrow> fields_from cur (tok @ rest) = fields_from (rev tok @ cur) rest"
  by (induction tok arbitrary: cur) auto

lemma fields_from_spaces:
  "\<forall>x\<in>set ws. isSpace x \<Longrightarrow> fields_from cur ws = (if cur = [] then [] else [rev cur])"
  by (induction ws arbitrary: cur) auto

lemma fields_from_trailing:
  "\<forall>x\<in>set ws. isSpace x \<Longrightarrow> fields_from cur (s @ ws) = fields_from cur s"
  by (induction s arbitrary: cur) (auto simp: fields_from_spaces)

lemma fields_from_leading:
  "fields_from [] (dropWhile isSpace s) = fields_from [] s"
  by (induction s) auto

lemma Fields_TrimSpace: "Fields (TrimSpace s) = Fields s"
proof -
  let ?t = "dropWhile isSpace s"
  have "?t = rev (dropWhile isSpace (rev ?t)) @ rev (takeWhile isSpace (rev ?t))"
    by (metis rev_append rev_rev_ident takeWhile_dropWhile_id)
  moreover have "\<forall>x\<in>set (rev (takeWhile isSpace (rev ?t))). isSpace x"
    by (auto dest: set_takeWhileD)
  ultimately have "fields_from [] ?t = fields_from [] (rev (dropWhile isSpace (rev ?t)))"
    by (metis fields_from_trailing)
  then show ?thesis
    by (simp add: Fields_def TrimSpace_def fields_from_leading)
qed

lemma Fields_pick_line:
  assumes "s \<noteq> []" and "\<forall>x\<in>set s. \<not> isSpace x"
  shows "Fields (''pick '' @ s @ '' '' @ msg) = ''pick'' # s # Fields msg"
proof -
  have "Fields (''pick '' @ s @ '' '' @ msg) = ''pick'' # fields_from [] (s @ '' '' @ msg)"
    by (simp add: Fields_def isSpace_def)
  also have "fields_from [] (s @ '' '' @ msg) = fields_from (rev s) ('' '' @ msg)"
    using fields_from_token [OF assms(2), of "[]"] by simp
  also have "\<dots> = s # fields_from [] msg"
    using assms(1) by (simp add: isSpace_def)
  finally show ?thesis by (simp add: Fields_def)
qed

lemma TrimSpace_Cons:
  "\<not> isSpace c \<Longrightarrow> TrimSpace (c # s) = c # rev (dropWhile isSpace (rev s))"
  by (simp add: TrimSpace_def dropWhile_append3)

lemma Split_lines_single: "CHR 0x0A \<notin> set l \<Longrightarrow> Split_lines l = [l]"
  by (induction l) auto

lemma Split_lines_first:
  "CHR 0x0A \<notin> set l \<Longrightarrow> Split_lines (l @ CHR 0x0A # rest) = l # Split_lines rest"
  by (induction l) auto

lemma Split_Join_lines:
  assumes "ls \<noteq> []" and "\<forall>l\<in>set ls. CHR 0x0A \<notin> set l"
  shows "Split_lines (Join_lines ls @ [CHR 0x0A]) = ls @ [[]]"
  using assms
proof (induction ls rule: Join_lines.induct)
  case 1
  then show ?case by simp
next
  case (2 l)
  then show ?case using Split_lines_first [of l "[]"] by simp
next
  case (3 l l2 ls)
  then have "Split_lines (Join_lines (l2 # ls) @ [CHR 0x0A]) = (l2 # ls) @ [[]]" by simp
  with 3 show ?case
    using Split_lines_first [of l "Join_lines (l2 # ls) @ [CHR 0x0A]"] by simp
qed

lemma commitMap_other:
  "k \<notin> (\<lambda>c. shortSHA (SHA c)) ` set commits \<Longrightarrow> commitMap commits m k = m k"
  by (induction commits arbitrary: m) auto

lemma commitMap_distinct:
  assumes "distinct (map (\<lambda>c. shortSHA (SHA c)) commits)" and "c \<in> set commits"
  shows "commitMap commits m (shortSHA (SHA c)) = Some c"
  using assms
proof (induction commits arbitrary: m)
  case Nil
  then show ?case by simp
next
  case (Cons x xs)
  show ?case
  proof (cases "c = x")
    case True
    with Cons.prems(1) show ?thesis by (simp add: commitMap_other)
  next
    case False
    with Cons show ?thesis by simp
  qed
qed

lemma parse_lines_header:
  "parse_lines m n (pick_header @ rest) selected = parse_lines m (n + 7) rest selected"
  by (simp add: pick_header_def TrimSpace_def HasPrefix_def isSpace_def eval_nat_numeral)

lemma parse_lines_pick_line:
  assumes "m (shortSHA (SHA c)) = Some c" and "shortSHA (SHA c) \<noteq> []"
    and "\<forall>x\<in>set (shortSHA (SHA c)). \<not> isSpace x"
  shows "parse_lines m n (pick_line c # rest) selected =
           parse_lines m (n + 1) rest
             (selected @ [\<lparr>SHA = SHA c, Message = Message c, Action = ''pick''\<rparr>])"
proof -
  let ?l = "pick_line c"
  have l: "?l = CHR ''p'' # ''ick '' @ shortSHA (SHA c) @ '' '' @ Message c"
    by (simp add: pick_line_def)
  have t: "TrimSpace ?l = CHR ''p'' #
             rev (dropWhile isSpace (rev (''ick '' @ shortSHA (SHA c) @ '' '' @ Message c)))"
    unfolding l by (rule TrimSpace_Cons) (simp add: isSpace_def)
  have f: "Fields (TrimSpace ?l) = ''pick'' # shortSHA (SHA c) # Fields (Message c)"
    unfolding Fields_TrimSpace pick_line_def using Fields_pick_line [OF assms(2,3)] by simp
  have ne: "TrimSpace ?l \<noteq> []" and np: "\<not> HasPrefix (TrimSpace ?l) ''#''"
    unfolding t by (simp_all add: HasPrefix_def)
  show ?thesis
    by (simp add: ne np f assms(1) normalize_action_def del: TrimSpace_Cons)
qed

lemma parse_lines_pick_lines:
  assumes "\<forall>c\<in>set cs. m (shortSHA (SHA c)) = Some c \<and> shortSHA (SHA c) \<noteq> []
             \<and> (\<forall>x\<in>set (shortSHA (SHA c)). \<not> isSpace x)"
  shows "parse_lines m n (map pick_line cs @ rest) selected =
           parse_lines m (n + length cs) rest
             (selected @ map (\<lambda>c. \<lparr>SHA = SHA c, Message = Message c, Action = ''pick''\<rparr>) cs)"
  using assms
proof (induction cs arbitrary: n selected)
  case Nil
  then show ?case by simp
next
  case (Cons c cs)
  then have c: "m (shortSHA (SHA c)) = Some c" "shortSHA (SHA c) \<noteq> []"
      "\<forall>x\<in>set (shortSHA (SHA c)). \<not> isSpace x"
    by simp_all
  from Cons.prems have rest: "\<forall>c\<in>set cs. m (shortSHA (SHA c)) = Some c \<and> shortSHA (SHA c) \<noteq> []
             \<and> (\<forall>x\<in>set (shortSHA (SHA c)). \<not> isSpace x)"
    by simp
  show ?case
    using parse_lines_pick_line
            [where m = m and c = c and n = n and rest = "map pick_line cs @ rest"
               and selected = selected, OF c]
      Cons.IH [OF rest, of "n + 1"]
    by simp
qed

section \<open>More facts about the workflow\<close>

lemma apply_entry_cases:
  assumes "apply_entry i c w st = (r, w', st')"
  shows "(r = None \<and> (st' = st \<or> st' = st\<lparr>CurrentCommitIdx := i\<rparr>))
       \<or> (r = Some (ConflictDetected (take 7 (SHA c))) \<and> Action c \<noteq> ''drop''
            \<and> state_file w' = Some (st\<lparr>CurrentCommitIdx := i, Stage := ''conflicts''\<rparr>))
       \<or> (\<exists>e. r = Some e \<and> (\<forall>s. e \<noteq> ConflictDetected s))"
  using assms
  by (auto simp: apply_entry_def CherryPick_def checked_out_def SaveState_def
           split: if_splits head_ref.splits option.splits)

lemma apply_loop_conflict_only_after_save:
  assumes "apply_loop i xs w st = (Some (ConflictDetected s), w', st')"
  shows "\<exists>k<length xs. Action (xs ! k) \<noteq> ''drop'' \<and> s = take 7 (SHA (xs ! k))
           \<and> state_file w' = Some (st\<lparr>CurrentCommitIdx := i + k, Stage := ''conflicts''\<rparr>)"
  using assms
proof (induction xs arbitrary: i w st)
  case Nil
  then show ?case by simp
next
  case (Cons x xs)
  obtain r1 w1 st1 where e: "apply_entry i x w st = (r1, w1, st1)"
    by (cases "apply_entry i x w st") auto
  from apply_entry_cases [OF e] consider
      (go) "r1 = None" "st1 = st \<or> st1 = st\<lparr>CurrentCommitIdx := i\<rparr>"
    | (conflict) "r1 = Some (ConflictDetected (take 7 (SHA x)))" "Action x \<noteq> ''drop''"
           "state_file w1 = Some (st\<lparr>CurrentCommitIdx := i, Stage := ''conflicts''\<rparr>)"
    | (other) e' where "r1 = Some e'" "\<forall>s. e' \<noteq> ConflictDetected s"
    by blast
  then show ?case
  proof cases
    case go
    with e Cons.prems have "apply_loop (i + 1) xs w1 st1 = (Some (ConflictDetected s), w', st')"
      by simp
    from Cons.IH [OF this] obtain k where k: "k < length xs" "Action (xs ! k) \<noteq> ''drop''"
      "s = take 7 (SHA (xs ! k))"
      "state_file w' = Some (st1\<lparr>CurrentCommitIdx := i + 1 + k, Stage := ''conflicts''\<rparr>)"
      by blast
    from k(4) go(2) have
      "state_file w' = Some (st\<lparr>CurrentCommitIdx := i + Suc k, Stage := ''conflicts''\<rparr>)"
      by auto
    with k have "Suc k < length (x # xs) \<and> Action ((x # xs) ! Suc k) \<noteq> ''drop''
        \<and> s = take 7 (SHA ((x # xs) ! Suc k))
        \<and> state_file w' = Some (st\<lparr>CurrentCommitIdx := i + Suc k, Stage := ''conflicts''\<rparr>)"
      by simp
    then show ?thesis by blast
  next
    case conflict
    with e Cons.prems have "s = take 7 (SHA x)" "w' = w1" by simp_all
    with conflict have "0 < length (x # xs) \<and> Action ((x # xs) ! 0) \<noteq> ''drop''
        \<and> s = take 7 (SHA ((x # xs) ! 0))
        \<and> state_file w' = Some (st\<lparr>CurrentCommitIdx := i + 0, Stage := ''conflicts''\<rparr>)"
      by simp
    then show ?thesis by blast
  next
    case other
    with e Cons.prems show ?thesis by simp
  qed
qed

lemma conflict_error_only_after_save:
  assumes "ApplyCherryPicks state w = (Some (ConflictDetected s), w')"
  shows "\<exists>i. CurrentCommitIdx state \<le> i \<and> i < length (CommitsToApply state)
           \<and> Action (CommitsToApply state ! i) \<noteq> ''drop''
           \<and> s = take 7 (SHA (CommitsToApply state ! i))
           \<and> state_file w' = Some (state\<lparr>CurrentCommitIdx := i, Stage := ''conflicts''\<rparr>)"
proof -
  let ?c = "CurrentCommitIdx state" and ?plan = "CommitsToApply state"
  obtain r w1 st1 where l: "apply_loop ?c (drop ?c ?plan) w state = (r, w1, st1)"
    by (metis prod_cases3)
  have "r = Some (ConflictDetected s) \<and> w1 = w'"
  proof (cases r)
    case None
    with l assms show ?thesis
      by (auto simp: ApplyCherryPicks_def SaveState_def split: if_splits)
  next
    case (Some a)
    with l assms show ?thesis by (simp add: ApplyCherryPicks_def)
  qed
  with l have "apply_loop ?c (drop ?c ?plan) w state = (Some (ConflictDetected s), w', st1)"
    by simp
  from apply_loop_conflict_only_after_save [OF this] obtain k where
    k: "k < length (drop ?c ?plan)" "Action (drop ?c ?plan ! k) \<noteq> ''drop''"
       "s = take 7 (SHA (drop ?c ?plan ! k))"
       "state_file w' = Some (state\<lparr>CurrentCommitIdx := ?c + k, Stage := ''conflicts''\<rparr>)"
    by blast
  from k(1) have lt: "?c + k < length ?plan" by simp
  then have nth: "drop ?c ?plan ! k = ?plan ! (?c + k)" by simp
  from k lt show ?thesis unfolding nth by (intro exI [of _ "?c + k"]) simp
qed

lemma finishRebranch_replaces_source:
  assumes "validateFinish w = None" and "state_file w = Some st"
    and "branches w (SourceBranch st) \<noteq> None" and "branches w (TempBranch st) = Some tip"
    and "TempBranch st \<noteq> SourceBranch st"
  shows "finishRebranch w =
           ClearState (w\<lparr>branches := ((branches w)(SourceBranch st := None, TempBranch st := None))
                                        (SourceBranch st \<mapsto> tip),
                         HEAD := OnBranch (SourceBranch st)\<rparr>)"
  using assms
  by (auto simp: finishRebranch_def validateFinish_def LoadState_def StateExists_def
        GetCurrentBranch_def DeleteBranch_def RenameBranch_def
        split: option.splits if_splits sum.splits head_ref.splits)

section \<open>The identifiers in a stored record\<close>

lemma commitMap_from:
  "commitMap commits m k = Some c \<Longrightarrow> c \<in> set commits \<or> m k = Some c"
proof (induction commits arbitrary: m)
  case Nil
  then show ?case by simp
next
  case (Cons a commits)
  from Cons.prems have "commitMap commits (m(shortSHA (SHA a) \<mapsto> a)) k = Some c" by simp
  from Cons.IH [OF this] show ?case by (auto split: if_splits)
qed

lemma parse_lines_from_table:
  assumes "parse_lines m n ls selected = Inr result" and "e \<in> set result"
  shows "e \<in> set selected \<or> (\<exists>k c. m k = Some c \<and> SHA e = SHA c \<and> Message e = Message c)"
  using assms
proof (induction ls arbitrary: n selected)
  case Nil
  then show ?case by simp
next
  case (Cons l ls)
  show ?case
  proof (cases "TrimSpace l = [] \<or> HasPrefix (TrimSpace l) ''#''")
    case True
    with Cons.prems have "parse_lines m (n + 1) ls selected = Inr result" by auto
    from Cons.IH [OF this Cons.prems(2)] show ?thesis .
  next
    case False
    with Cons.prems obtain action c where
      c: "m (Fields (TrimSpace l) ! 1) = Some c"
      and run: "parse_lines m (n + 1) ls
                  (selected @ [\<lparr>SHA = SHA c, Message = Message c, Action = action\<rparr>])
                = Inr result"
      by (auto split: if_splits option.splits)
    from Cons.IH [OF run Cons.prems(2)] consider
        "e \<in> set selected" | "e = \<lparr>SHA = SHA c, Message = Message c, Action = action\<rparr>"
      | "\<exists>k c. m k = Some c \<and> SHA e = SHA c \<and> Message e = Message c"
      by auto
    then show ?thesis
    proof cases
      case 1
      then show ?thesis by simp
    next
      case 2
      then have "SHA e = SHA c" "Message e = Message c" by simp_all
      with c show ?thesis by blast
    next
      case 3
      then show ?thesis by simp
    qed
  qed
qed

lemma parse_content_from_commits:
  assumes "parse_content text commits = Inr result" and "e \<in> set result"
  shows "\<exists>c\<in>set commits. SHA e = SHA c \<and> Message e = Message c"
proof -
  from assms(1) have
    "parse_lines (commitMap commits Map.empty) 0 (Split_lines text) [] = Inr result"
    by (auto simp: parse_content_def split: sum.splits if_splits)
  from parse_lines_from_table [OF this assms(2)] obtain k c where
    "commitMap commits Map.empty k = Some c" "SHA e = SHA c" "Message e = Message c"
    by auto
  with commitMap_from [of commits Map.empty k c] show ?thesis by auto
qed

lemma apply_entry_plan:
  assumes "apply_entry i c w st = (r, w', st')"
    and "\<forall>s. state_file w = Some s \<longrightarrow> CommitsToApply s = CommitsToApply st"
  shows "CommitsToApply st' = CommitsToApply st
       \<and> (\<forall>s. state_file w' = Some s \<longrightarrow> CommitsToApply s = CommitsToApply st)"
  using assms
  by (auto simp: apply_entry_def CherryPick_def checked_out_def SaveState_def
           split: if_splits head_ref.splits option.splits)

lemma apply_loop_plan:
  assumes "apply_loop i xs w st = (r, w', st')"
    and "\<forall>s. state_file w = Some s \<longrightarrow> CommitsToApply s = CommitsToApply st"
  shows "CommitsToApply st' = CommitsToApply st
       \<and> (\<forall>s. state_file w' = Some s \<longrightarrow> CommitsToApply s = CommitsToApply st)"
  using assms
proof (induction xs arbitrary: i w st)
  case Nil
  then show ?case by simp
next
  case (Cons x xs)
  obtain r1 w1 st1 where e: "apply_entry i x w st = (r1, w1, st1)"
    by (cases "apply_entry i x w st") auto
  from apply_entry_plan [OF e Cons.prems(2)]
  have p: "CommitsToApply st1 = CommitsToApply st"
    "\<forall>s. state_file w1 = Some s \<longrightarrow> CommitsToApply s = CommitsToApply st" by simp_all
  show ?case
  proof (cases r1)
    case None
    with e Cons.prems(1) have "apply_loop (i + 1) xs w1 st1 = (r, w', st')" by simp
    from Cons.IH [OF this] p show ?thesis by simp
  next
    case (Some a)
    with e Cons.prems(1) p show ?thesis by auto
  qed
qed

lemma ApplyCherryPicks_plan:
  assumes "\<forall>s. state_file w = Some s \<longrightarrow> CommitsToApply s = CommitsToApply st"
    and "state_file (snd (ApplyCherryPicks st w)) = Some s'"
  shows "CommitsToApply s' = CommitsToApply st"
proof -
  obtain r w1 st1 where l: "apply_loop (CurrentCommitIdx st)
       (drop (CurrentCommitIdx st) (CommitsToApply st)) w st = (r, w1, st1)"
    by (metis prod_cases3)
  from apply_loop_plan [OF l assms(1)] l assms(2) show ?thesis
    by (cases r) (auto simp: ApplyCherryPicks_def SaveState_def split: if_splits)
qed

lemma resumed_plan_identifiers:
  assumes "state_file (snd (ApplyCherryPicks st0 w5)) = Some st" and "state_file w5 = Some st0"
    and "parse_content content commits = Inr (CommitsToApply st0)"
    and "\<not> list_ex (\<lambda>commit. length (SHA commit) < 7) commits"
    and "e \<in> set (CommitsToApply st)"
  shows "7 \<le> length (SHA e)"
proof -
  from ApplyCherryPicks_plan [of w5 st0 st] assms(1,2)
  have "CommitsToApply st = CommitsToApply st0" by simp
  with assms(5) parse_content_from_commits [OF assms(3), of e] obtain c where
    "c \<in> set commits" "SHA e = SHA c" by auto
  with assms(4) show ?thesis by (auto simp: list_ex_iff)
qed

lemma start_persists_long_identifiers:
  assumes "state_file w = None" and "state_file (snd (startRebranch baseBranch w)) = Some st"
    and "e \<in> set (CommitsToApply st)"
  shows "7 \<le> length (SHA e)"
  using assms
  by (auto simp: startRebranch_def CreateInteractiveFile_def LaunchEditor_def
        ParseInteractiveFile_def CreateBranch_def CheckoutBranch_def SaveState_def
        split: option.splits sum.splits prod.splits if_splits
        intro: resumed_plan_identifiers)

section \<open>Clearing the record\<close>

text \<open>
  C10. Clearing the record when no record file exists returns no error and leaves the
  environment as it was, whether or not the file system lets files be removed.
\<close>

theorem ClearState_absent:
  "state_file w = None \<Longrightarrow> ClearState w = (None, w)"
  by (simp add: ClearState_def StateExists_def)

theorem ClearState_absent_witness:
  "state_file quiet_world = None \<and> \<not> fs_ok quiet_world
   \<and> ClearState quiet_world = (None, quiet_world)"
  using ClearState_absent [of quiet_world] by (simp add: quiet_world_def)

section \<open>The apply loop\<close>

text \<open>
  C2. Take any record and any index \<open>i\<close> from its cursor on. Let the cherry-picks of the
  entries from the cursor up to \<open>i\<close> all succeed, each on top of what the ones before it
  left, and leave the repository \<open>g\<close>; let the entry at \<open>i\<close> be one to apply, and let its
  cherry-pick fail in \<open>g\<close> (whether or not the same commit applied earlier in the run).
  Then, where the record can be written, the apply loop ends in \<open>g\<close> with the record
  stored there, its cursor at \<open>i\<close> and its stage \<^verbatim>\<open>conflicts\<close>, and returns the conflict
  error that names the first seven characters of that commit.
  (Conversely, \<open>conflict_error_only_after_save\<close>: the loop returns the conflict error only
  with that record stored. Identifiers shorter than seven bytes, on which \<^verbatim>\<open>SHA[:7]\<close>
  panics, are in no record that \<^verbatim>\<open>start\<close> writes: \<open>start_persists_long_identifiers\<close>.)
\<close>

theorem conflict_persisted_before_error:
  assumes "CurrentCommitIdx state \<le> i" and "i < length (CommitsToApply state)"
    and "cherry_picks (take (i - CurrentCommitIdx state)
                            (drop (CurrentCommitIdx state) (CommitsToApply state))) w = Some g"
    and "Action (CommitsToApply state ! i) \<noteq> ''drop''"
    and "fst (CherryPick (SHA (CommitsToApply state ! i)) g) \<noteq> None"
    and "fs_ok w" and "7 \<le> length (SHA (CommitsToApply state ! i))"
  shows "ApplyCherryPicks state w =
           (Some (ConflictDetected (take 7 (SHA (CommitsToApply state ! i)))),
            g\<lparr>state_file := Some (state\<lparr>CurrentCommitIdx := i, Stage := ''conflicts''\<rparr>)\<rparr>)"
proof -
  let ?c = "CurrentCommitIdx state" and ?plan = "CommitsToApply state"
  let ?pre = "take (i - ?c) (drop ?c ?plan)"
  have split: "drop ?c ?plan = ?pre @ ?plan ! i # drop (Suc i) ?plan"
    using assms(1,2) by (rule drop_split_at)
  have len: "length ?pre = i - ?c" using assms(1,2) by simp
  from apply_loop_conflict [OF assms(6,3,4,5), of ?c "drop (Suc i) ?plan" state]
  have "apply_loop ?c (?pre @ ?plan ! i # drop (Suc i) ?plan) w state =
       ((if length (SHA (?plan ! i)) < 7 then Some Panic
         else Some (ConflictDetected (take 7 (SHA (?plan ! i))))),
        g\<lparr>state_file := Some (state\<lparr>CurrentCommitIdx := ?c + length ?pre,
                                      Stage := ''conflicts''\<rparr>)\<rparr>,
        state\<lparr>CurrentCommitIdx := ?c + length ?pre, Stage := ''conflicts''\<rparr>)" .
  with len assms(1,7) split show ?thesis
    by (simp add: ApplyCherryPicks_def)
qed

theorem conflict_persisted_before_error_witness:
  "cherry_picks (take 2 twice_plan) busy_world
     = Some (busy_world\<lparr>branches :=
               (branches busy_world)(''rebranch-temp-5'' \<mapsto> ''m1+aaa1111111'')\<rparr>)
   \<and> twice_plan ! 0 = twice_plan ! 2
   \<and> ApplyCherryPicks twice_state busy_world
     = (Some (ConflictDetected ''aaa1111''),
        busy_world\<lparr>branches := (branches busy_world)(''rebranch-temp-5'' \<mapsto> ''m1+aaa1111111''),
                   state_file := Some (twice_state\<lparr>CurrentCommitIdx := 2,
                                                    Stage := ''conflicts''\<rparr>)\<rparr>)"
proof -
  let ?g = "busy_world\<lparr>branches :=
              (branches busy_world)(''rebranch-temp-5'' \<mapsto> ''m1+aaa1111111'')\<rparr>"
  have picks: "cherry_picks (take 2 twice_plan) busy_world = Some ?g"
    by (simp add: twice_plan_def busy_world_def CherryPick_def checked_out_def
          tip_ends_with_def eval_nat_numeral)
  have fails: "fst (CherryPick ''aaa1111111'' ?g) \<noteq> None"
    by (simp add: busy_world_def CherryPick_def checked_out_def tip_ends_with_def)
  have h3: "cherry_picks (take (2 - CurrentCommitIdx twice_state)
              (drop (CurrentCommitIdx twice_state) (CommitsToApply twice_state))) busy_world
            = Some ?g"
    using picks by (simp add: twice_state_def)
  have h5: "fst (CherryPick (SHA (CommitsToApply twice_state ! 2)) ?g) \<noteq> None"
    using fails by (simp add: twice_state_def twice_plan_def)
  from conflict_persisted_before_error [of twice_state 2 busy_world ?g, OF _ _ h3 _ h5]
  have "ApplyCherryPicks twice_state busy_world
     = (Some (ConflictDetected ''aaa1111''),
        ?g\<lparr>state_file := Some (twice_state\<lparr>CurrentCommitIdx := 2,
                                             Stage := ''conflicts''\<rparr>)\<rparr>)"
    by (simp add: twice_state_def twice_plan_def busy_world_def)
  with picks show ?thesis
    by (simp add: twice_plan_def)
qed




section \<open>Continue\<close>

text \<open>
  C7. Whenever the checks of \<^verbatim>\<open>continue\<close> pass, a record is stored, its stage is
  \<^verbatim>\<open>conflicts\<close>, and \<^verbatim>\<open>continue\<close> is the apply loop run on that record with the cursor
  one higher and the stage \<^verbatim>\<open>picking\<close>; nothing else is looked at before the cursor moves.
\<close>

theorem continue_advances_cursor:
  assumes "validateContinue w = None"
  shows "\<exists>st. state_file w = Some st \<and> Stage st = ''conflicts''
           \<and> continueRebranch w =
               ApplyCherryPicks (st\<lparr>CurrentCommitIdx := CurrentCommitIdx st + 1,
                                     Stage := ''picking''\<rparr>) w"
  using assms
  by (auto simp: validateContinue_def continueRebranch_def LoadState_def StateExists_def
           split: option.splits if_splits sum.splits)

theorem continue_advances_cursor_witness:
  "validateContinue conflicted_world = None
   \<and> (\<exists>st. state_file conflicted_world = Some st \<and> Stage st = ''conflicts''
           \<and> continueRebranch conflicted_world =
               ApplyCherryPicks (st\<lparr>CurrentCommitIdx := CurrentCommitIdx st + 1,
                                     Stage := ''picking''\<rparr>) conflicted_world)"
proof -
  have v: "validateContinue conflicted_world = None"
    by (simp add: validateContinue_iff conflicted_world_def busy_world_def IsValidRepository_def)
  from continue_advances_cursor [OF v] v show ?thesis by simp
qed

section \<open>Abort\<close>




section \<open>Start while an operation is in progress\<close>

text \<open>
  C9. The claim has \<^verbatim>\<open>start\<close> answer "already in progress" whenever a record is stored.
  The repository check comes first: with a HEAD that does not resolve the error is
  another one.
\<close>

theorem start_in_orphan_repository:
  "state_file orphan_world \<noteq> None
   \<and> fst (startRebranch ''main'' orphan_world) \<noteq> Some AlreadyInProgress"
  by (simp add: orphan_world_def conflicted_world_def busy_world_def startRebranch_def
        validateStart_def IsValidRepository_def)

text \<open>
  C9, as the code has it. Whenever a record is stored, \<^verbatim>\<open>start\<close> returns an error and
  the environment is what it was: no branch, no file and no record has changed. The
  error is "already in progress" when the repository is valid, and "invalid repository"
  otherwise.
\<close>

theorem start_with_record:
  assumes "state_file w \<noteq> None"
  shows "startRebranch baseBranch w =
           (Some (if IsValidRepository w = None then AlreadyInProgress else InvalidRepository), w)"
  using assms
  by (auto simp: startRebranch_def validateStart_def StateExists_def IsValidRepository_def)

theorem start_with_record_witness:
  "state_file busy_world \<noteq> None
   \<and> startRebranch ''main'' busy_world = (Some AlreadyInProgress, busy_world)"
  using start_with_record [of busy_world "''main''"]
  by (simp add: busy_world_def IsValidRepository_def)

section \<open>The source branch before finish\<close>

text \<open>
  C1. \<^verbatim>\<open>continue\<close> does not check which branch is checked out (\<^verbatim>\<open>finish\<close> does). With
  the source branch checked out and a record in stage \<^verbatim>\<open>conflicts\<close>, its checks pass
  and the remaining commit is cherry-picked onto the source branch, which moves from
  \<open>f1\<close> to a new commit.
\<close>

theorem continue_on_source_branch_moves_it:
  "validateContinue strayed_world = None
   \<and> SourceBranch (demo_state\<lparr>Stage := ''conflicts''\<rparr>) = ''feature''
   \<and> state_file strayed_world = Some (demo_state\<lparr>Stage := ''conflicts''\<rparr>)
   \<and> branches strayed_world ''feature'' = Some ''f1''
   \<and> fst (continueRebranch strayed_world) = None
   \<and> branches (snd (continueRebranch strayed_world)) ''feature'' = Some ''f1+ccc3333333''"
proof -
  have v: "validateContinue strayed_world = None"
    by (simp add: validateContinue_iff strayed_world_def conflicted_world_def busy_world_def
          demo_state_def IsValidRepository_def)
  have sf: "state_file strayed_world = Some (demo_state\<lparr>Stage := ''conflicts''\<rparr>)"
    by (simp add: strayed_world_def conflicted_world_def)
  have c: "continueRebranch strayed_world =
             ApplyCherryPicks (demo_state\<lparr>CurrentCommitIdx := 1, Stage := ''picking''\<rparr>)
               strayed_world"
    by (simp add: continueRebranch_def v LoadState_def sf) (simp add: demo_state_def)
  have a: "ApplyCherryPicks (demo_state\<lparr>CurrentCommitIdx := 1, Stage := ''picking''\<rparr>)
             strayed_world
           = (None, strayed_world
                \<lparr>branches := (branches strayed_world)(''feature'' \<mapsto> ''f1+ccc3333333''),
                 state_file := Some (demo_state\<lparr>CurrentCommitIdx := 2, Stage := ''done''\<rparr>)\<rparr>)"
    by (simp add: strayed_world_def conflicted_world_def demo_plan_def busy_world_def
          demo_state_def apply_entry_def CherryPick_def checked_out_def SaveState_def
          ApplyCherryPicks_def)
  have b: "branches strayed_world ''feature'' = Some ''f1''"
    by (simp add: strayed_world_def conflicted_world_def busy_world_def)
  show ?thesis
    unfolding c a using v sf b by (simp add: demo_state_def)
qed


text \<open>
  Where the temp branch is checked out, the loop and \<^verbatim>\<open>continue\<close> leave every other branch
  where it was (\<open>ApplyCherryPicks_frame\<close>, \<open>continueRebranch_frame\<close>), and \<^verbatim>\<open>start\<close> changes
  no branch but the temp branch it creates (\<open>startRebranch_frame\<close>). \<^verbatim>\<open>finish\<close>, once its
  checks pass, puts the temp branch's commit under the source branch's name
  (\<open>finishRebranch_replaces_source\<close>).
\<close>

section \<open>The commit range\<close>



text \<open>
  C8. The claim has the entry's message be the first line of the commit's message. The
  entry holds the whole message with the white space at its ends trimmed: for a commit
  with a subject, a blank line and a body, the entry's message has all three.
\<close>

theorem message_longer_than_first_line:
  "GetCommitsBetween graph_world ''main'' ''feature'' =
     ([\<lparr>SHA = ''f'', Message = ''Subject'' @ [CHR 0x0A, CHR 0x0A] @ ''Body'',
        Action = ''pick''\<rparr>,
       \<lparr>SHA = ''g'', Message = ''Add g'', Action = ''pick''\<rparr>], None)
   \<and> map_option CommitMessage (objects graph_world ''f'')
       = Some (''Subject'' @ [CHR 0x0A, CHR 0x0A] @ ''Body'' @ [CHR 0x0A])
   \<and> first_line (''Subject'' @ [CHR 0x0A, CHR 0x0A] @ ''Body'' @ [CHR 0x0A]) = ''Subject''
   \<and> ''Subject'' @ [CHR 0x0A, CHR 0x0A] @ ''Body'' \<noteq> ''Subject''"
  by (simp add: graph_world_commits objects_graph first_line_def commit_f_def)

text \<open>
  C8, as the code has it. Every entry \<^verbatim>\<open>GetCommitsBetween\<close> returns carries the hash of
  a commit the iterator yielded from head, and the whole message of that commit with
  the white space at both ends trimmed.
\<close>

theorem message_is_trimmed_whole_message:
  assumes "GetCommitsBetween w base head = (commits, err)" and "e \<in> set commits"
  shows "\<exists>hh hc cs c. branches w head = Some hh \<and> objects w hh = Some hc
           \<and> Log w (Hash hc) = Some cs \<and> c \<in> set cs
           \<and> SHA e = Hash c \<and> Message e = TrimSpace (CommitMessage c)"
proof -
  from assms obtain bh hh bc hc cs where
    refs: "branches w base = Some bh" "branches w head = Some hh"
          "objects w bh = Some bc" "objects w hh = Some hc" "Log w (Hash hc) = Some cs"
    and run: "collect_commits w (Hash bc) cs [] = (commits, err)"
    by (auto simp: GetCommitsBetween_def split: option.splits if_splits)
  from collect_commits_entries [OF run assms(2)] obtain c where
    "c \<in> set cs" "e = entry_of c" by auto
  with refs show ?thesis by (auto simp: entry_of_def)
qed

theorem message_is_trimmed_whole_message_witness:
  "\<exists>hh hc cs c. branches graph_world ''feature'' = Some hh \<and> objects graph_world hh = Some hc
      \<and> Log graph_world (Hash hc) = Some cs \<and> c \<in> set cs \<and> ''f'' = Hash c
      \<and> ''Subject'' @ [CHR 0x0A, CHR 0x0A] @ ''Body'' = TrimSpace (CommitMessage c)"
  using message_is_trimmed_whole_message [OF graph_world_commits,
          of "\<lparr>SHA = ''f'', Message = ''Subject'' @ [CHR 0x0A, CHR 0x0A] @ ''Body'',
               Action = ''pick''\<rparr>"]
  by simp

section \<open>The selection listing, written and read back\<close>

text \<open>
  C5. A commit whose message has a body is written to the listing on several lines, and
  reading the unedited listing back fails at the body: the listing of the commit below
  has ten lines before the final empty one, and the parser rejects line 10.
\<close>

theorem listing_of_message_with_body_rejected:
  "Split_lines (pick_content [body_commit]) =
     pick_header @ [''pick abc1234 Fix bug'', [], ''Details here'', []]
   \<and> parse_content (pick_content [body_commit]) [body_commit]
       = Inl (InvalidAction ''Details'' 10)"
  by (simp add: body_commit_def pick_content_def pick_header_def pick_line_def shortSHA_def
        parse_content_def TrimSpace_def isSpace_def HasPrefix_def Fields_def
        normalize_action_def)

text \<open>
  Two commits whose identifiers agree on the first seven characters share an entry of
  the parser's table, so the unedited listing reads back as the later commit twice.
\<close>

lemma listing_of_twin_identifiers:
  "parse_content (pick_content twin_commits) twin_commits
     = Inr [\<lparr>SHA = ''abc1234bbb'', Message = ''second'', Action = ''pick''\<rparr>,
            \<lparr>SHA = ''abc1234bbb'', Message = ''second'', Action = ''pick''\<rparr>]"
  by (simp add: twin_commits_def pick_content_def pick_header_def pick_line_def shortSHA_def
        parse_content_def TrimSpace_def isSpace_def HasPrefix_def Fields_def
        normalize_action_def)

text \<open>
  Where every message is a single line, every short identifier is a word (not empty, no
  white space) and no two commits share one, the unedited listing does read back as the
  commits it was written from, in order, each with the action \<^verbatim>\<open>pick\<close>.
\<close>

lemma unedited_listing_reads_back:
  assumes "commits \<noteq> []"
    and "\<forall>c\<in>set commits. CHR 0x0A \<notin> set (Message c) \<and> shortSHA (SHA c) \<noteq> []
           \<and> (\<forall>x\<in>set (shortSHA (SHA c)). \<not> isSpace x)"
    and "distinct (map (\<lambda>c. shortSHA (SHA c)) commits)"
  shows "parse_content (pick_content commits) commits
           = Inr (map (\<lambda>c. c\<lparr>Action := ''pick''\<rparr>) commits)"
proof -
  let ?m = "commitMap commits Map.empty"
  have nl: "\<forall>l\<in>set (pick_header @ map pick_line commits). CHR 0x0A \<notin> set l"
  proof
    fix l assume "l \<in> set (pick_header @ map pick_line commits)"
    then consider "l \<in> set pick_header" | c where "c \<in> set commits" "l = pick_line c"
      by auto
    then show "CHR 0x0A \<notin> set l"
    proof cases
      case 1
      then show ?thesis by (auto simp: pick_header_def)
    next
      case 2
      with assms(2) have "CHR 0x0A \<notin> set (Message c)"
        "\<forall>x\<in>set (shortSHA (SHA c)). \<not> isSpace x" by simp_all
      then have "CHR 0x0A \<notin> set (shortSHA (SHA c))" by (auto simp: isSpace_def)
      with 2 \<open>CHR 0x0A \<notin> set (Message c)\<close> show ?thesis by (simp add: pick_line_def)
    qed
  qed
  have split: "Split_lines (pick_content commits) = pick_header @ map pick_line commits @ [[]]"
    unfolding pick_content_def using Split_Join_lines [OF _ nl] by (simp add: pick_header_def)
  have tbl: "\<forall>c\<in>set commits. ?m (shortSHA (SHA c)) = Some c \<and> shortSHA (SHA c) \<noteq> []
             \<and> (\<forall>x\<in>set (shortSHA (SHA c)). \<not> isSpace x)"
    using assms(2) commitMap_distinct [OF assms(3)] by simp
  have "parse_lines ?m 0 (Split_lines (pick_content commits)) []
          = Inr (map (\<lambda>c. \<lparr>SHA = SHA c, Message = Message c, Action = ''pick''\<rparr>) commits)"
    unfolding split parse_lines_header parse_lines_pick_lines [OF tbl]
    by (simp add: TrimSpace_def)
  moreover have "map (\<lambda>c. \<lparr>SHA = SHA c, Message = Message c, Action = ''pick''\<rparr>) commits
                 = map (\<lambda>c. c\<lparr>Action := ''pick''\<rparr>) commits"
    by simp
  ultimately show ?thesis
    using assms(1) by (simp add: parse_content_def)
qed

end
